theory Spec2Isabelle
  imports Main
begin

section \<open>Python string primitives used by the chunking service\<close>

text \<open>
  Page texts are modelled as \<open>string\<close>, so a text ranges over the code points below 256.
  \<open>is_space\<close> lists the code points of that range that Python's \<open>str.split()\<close> and
  \<open>str.strip()\<close> treat as whitespace: 9 to 13, 28 to 32, 133 and 160.
\<close>

definition is_space :: "char \<Rightarrow> bool" where
  "is_space c =
     (let n = (of_char c :: nat)
      in (9 \<le> n \<and> n \<le> 13) \<or> (28 \<le> n \<and> n \<le> 32) \<or> n = 133 \<or> n = 160)"

text \<open>\<open>s.strip()\<close>: whitespace removed at both ends.\<close>

definition strip :: "string \<Rightarrow> string" where
  "strip s = rev (dropWhile is_space (rev (dropWhile is_space s)))"

text \<open>
  \<open>s.split()\<close> with no argument: the maximal runs of non-whitespace characters, in order.
  The first argument is the word being read.
\<close>

fun split_ws_from :: "string \<Rightarrow> string \<Rightarrow> string list" where
  "split_ws_from cur [] = (if cur = [] then [] else [cur])"
| "split_ws_from cur (c # cs) =
     (if is_space c
      then (if cur = [] then split_ws_from [] cs else cur # split_ws_from [] cs)
      else split_ws_from (cur @ [c]) cs)"

definition split_ws :: "string \<Rightarrow> string list" where
  "split_ws s = split_ws_from [] s"

text \<open>
  \<open>s.split(sep)\<close> for a non-empty separator: the text is cut at each occurrence of
  \<open>sep\<close>, found from left to right without overlap; the pieces may be empty.
\<close>

function split_sep_from :: "string \<Rightarrow> string \<Rightarrow> string \<Rightarrow> string list" where
  "split_sep_from sep cur [] = [cur]"
| "split_sep_from sep cur (c # cs) =
     (if sep \<noteq> [] \<and> take (length sep) (c # cs) = sep
      then cur # split_sep_from sep [] (drop (length sep) (c # cs))
      else split_sep_from sep (cur @ [c]) cs)"
  by pat_completeness auto
termination
  by (relation "measure (\<lambda>(sep, cur, s). length s)") auto

definition split_sep :: "string \<Rightarrow> string \<Rightarrow> string list" where
  "split_sep sep s = split_sep_from sep [] s"

text \<open>\<open>" ".join(ws)\<close>.\<close>

fun join_sp :: "string list \<Rightarrow> string" where
  "join_sp [] = []"
| "join_sp [w] = w"
| "join_sp (w # v # ws) = w @ '' '' @ join_sp (v # ws)"

text \<open>
  \<open>xs[i:j]\<close> for indices \<open>0 \<le> i\<close> and \<open>0 \<le> j\<close>, the only ones the service uses: the
  elements from position \<open>i\<close> up to, not including, position \<open>j\<close>, clipped to the list.
\<close>

definition slice :: "'a list \<Rightarrow> int \<Rightarrow> int \<Rightarrow> 'a list" where
  "slice xs i j = take (nat (j - i)) (drop (nat i) xs)"

text \<open>\<open>str(n)\<close> for an integer: its decimal digits, with a minus sign when negative.\<close>

definition digit_char :: "nat \<Rightarrow> char" where
  "digit_char d = char_of (48 + d)"

function str_nat :: "nat \<Rightarrow> string" where
  "str_nat n = (if n < 10 then [digit_char n] else str_nat (n div 10) @ [digit_char (n mod 10)])"
  by pat_completeness auto
termination
  by (relation "measure (\<lambda>n. n)") auto

declare str_nat.simps [simp del]

definition str_int :: "int \<Rightarrow> string" where
  "str_int i = (if i < 0 then CHR ''-'' # str_nat (nat (- i)) else str_nat (nat i))"

section \<open>Data model\<close>

text \<open>
  A page of the page map is a dict with the keys \<open>page\<close> and \<open>text\<close>; the field for the
  key \<open>text\<close> is called \<open>page_text\<close>.
\<close>

record PageEntry =
  page :: int
  page_text :: string

record ChunkMetadata =
  chunk_id :: int
  page_number :: int
  page_range :: string
  word_count :: int

record Chunk =
  content :: string
  metadata :: ChunkMetadata

record DocumentRecord =
  filename :: string
  total_chunks :: int
  total_pages :: int
  loading_method :: string
  chunking_method :: string
  timestamp :: string
  chunks :: "Chunk list"

text \<open>
  The service raises \<open>ValueError\<close> itself. \<open>SplitterError\<close> stands for whatever exception
  the text-splitter library raises; \<open>chunk_text\<close> logs an exception and re-raises it
  unchanged.
\<close>

datatype error = ValueError string | SplitterError string

text \<open>
  The outcome of a call: \<open>None\<close> when the call does not return, \<open>Some (Inl e)\<close> when it
  raises \<open>e\<close>, \<open>Some (Inr v)\<close> when it returns \<open>v\<close>.
\<close>

type_synonym 'a outcome = "(error + 'a) option"

text \<open>
  \<open>RecursiveCharacterTextSplitter(chunk_size, chunk_overlap, separators).split_text(text)\<close>
  belongs to an external library and is a parameter of the model, in this argument order.
\<close>

type_synonym splitter = "int \<Rightarrow> int \<Rightarrow> string list \<Rightarrow> string \<Rightarrow> string list outcome"

section \<open>The splitters\<close>

definition words_per_chunk :: "int \<Rightarrow> int" where
  "words_per_chunk chunk_size = max 1 (chunk_size div (5 + 1))"

definition overlap_words :: "int \<Rightarrow> int" where
  "overlap_words chunk_overlap =
     (if chunk_overlap \<le> 0 then 0 else max 0 (chunk_overlap div (5 + 1)))"

text \<open>
  The \<open>while start < len(words)\<close> loop of \<open>_fixed_size_chunks\<close>, with the state
  \<open>start\<close> and the list \<open>out\<close> of chunks emitted so far. \<open>None\<close> is a loop that never ends.
\<close>

partial_function (option) fixed_size_loop ::
  "string list \<Rightarrow> int \<Rightarrow> int \<Rightarrow> int \<Rightarrow> string list \<Rightarrow> string list option" where
  "fixed_size_loop words wpc ow start out =
     (if start < int (length words)
      then (let end = min (int (length words)) (start + wpc);
                chunk = join_sp (slice words start end);
                out' = (if strip chunk \<noteq> [] then out @ [chunk] else out)
            in if end \<ge> int (length words) then Some out'
               else fixed_size_loop words wpc ow (max 0 (end - ow)) out')
      else Some out)"

declare fixed_size_loop.simps [code]

text \<open>
  The splitters return a list of dicts with the single key \<open>text\<close>; the model returns the
  list of these texts.
\<close>

definition fixed_size_chunks :: "string \<Rightarrow> int \<Rightarrow> int \<Rightarrow> string list option" where
  "fixed_size_chunks txt chunk_size chunk_overlap =
     (if chunk_size \<le> 0 then Some [txt]
      else fixed_size_loop (split_ws txt) (words_per_chunk chunk_size)
             (overlap_words chunk_overlap) 0 [])"

definition paragraph_chunks :: "string \<Rightarrow> string list" where
  "paragraph_chunks txt =
     map strip (filter (\<lambda>p. strip p \<noteq> []) (split_sep [CHR 0x0A, CHR 0x0A] txt))"

definition sentence_chunks :: "splitter \<Rightarrow> string \<Rightarrow> int \<Rightarrow> int \<Rightarrow> string list outcome" where
  "sentence_chunks rsplit txt chunk_size chunk_overlap =
     rsplit chunk_size chunk_overlap [''.'', ''!'', ''?'', [CHR 0x0A], '' ''] txt"

definition separator_chunks ::
  "splitter \<Rightarrow> string \<Rightarrow> int \<Rightarrow> int \<Rightarrow> string list option \<Rightarrow> string list outcome" where
  "separator_chunks rsplit txt chunk_size chunk_overlap separators =
     (let seps = (case separators of
                    None \<Rightarrow> [[CHR 0x0A, CHR 0x0A], [CHR 0x0A], ''. '', '' '']
                  | Some ss \<Rightarrow>
                      if ss = [] then [[CHR 0x0A, CHR 0x0A], [CHR 0x0A], ''. '', '' ''] else ss)
      in rsplit chunk_size chunk_overlap seps txt)"

section \<open>chunk_text\<close>

text \<open>The chunk appended to the list \<open>out\<close> for the text \<open>c\<close> taken from the page \<open>p\<close>.\<close>

definition new_chunk :: "Chunk list \<Rightarrow> PageEntry \<Rightarrow> string \<Rightarrow> Chunk" where
  "new_chunk out p c =
     \<lparr>content = c,
      metadata = \<lparr>chunk_id = int (length out) + 1,
                  page_number = page p,
                  page_range = str_int (page p),
                  word_count = int (length (split_ws c))\<rparr>\<rparr>"

text \<open>The loop of the \<open>by_pages\<close> branch.\<close>

fun pages_loop :: "PageEntry list \<Rightarrow> Chunk list \<Rightarrow> Chunk list" where
  "pages_loop [] out = out"
| "pages_loop (p # ps) out = pages_loop ps (out @ [new_chunk out p (page_text p)])"

text \<open>The inner loop \<open>for chunk in page_chunks\<close> of the other branches.\<close>

fun append_chunks :: "PageEntry \<Rightarrow> string list \<Rightarrow> Chunk list \<Rightarrow> Chunk list" where
  "append_chunks p [] out = out"
| "append_chunks p (c # cs) out = append_chunks p cs (out @ [new_chunk out p c])"

text \<open>
  The outer loop \<open>for page_data in page_map\<close> of the \<open>fixed_size\<close> branch and of the
  branch for paragraphs, sentences and separators, which differ only in the splitter
  called on the page's text. An exception or a splitter that does not return ends the loop.
\<close>

fun split_loop ::
  "(string \<Rightarrow> string list outcome) \<Rightarrow> PageEntry list \<Rightarrow> Chunk list \<Rightarrow> Chunk list outcome" where
  "split_loop f [] out = Some (Inr out)"
| "split_loop f (p # ps) out =
     (case f (page_text p) of
        None \<Rightarrow> None
      | Some (Inl e) \<Rightarrow> Some (Inl e)
      | Some (Inr page_chunks) \<Rightarrow> split_loop f ps (append_chunks p page_chunks out))"

text \<open>\<open>metadata.get(key, "")\<close>.\<close>

definition get_or_empty :: "(string \<rightharpoonup> string) \<Rightarrow> string \<Rightarrow> string" where
  "get_or_empty m k = (case m k of None \<Rightarrow> [] | Some v \<Rightarrow> v)"

text \<open>
  \<open>chunk_text\<close>. The first two arguments are not arguments of the source: \<open>rsplit\<close> is the
  library's splitter and \<open>now\<close> is the value of \<open>datetime.now().isoformat()\<close> at the call.
  \<open>page_map\<close> and \<open>separators\<close> are \<open>None\<close> when the caller passes Python's \<open>None\<close>.
\<close>

definition chunk_text ::
  "splitter \<Rightarrow> string \<Rightarrow> string \<Rightarrow> string \<Rightarrow> (string \<rightharpoonup> string) \<Rightarrow> PageEntry list option
     \<Rightarrow> int \<Rightarrow> int \<Rightarrow> string list option \<Rightarrow> DocumentRecord outcome" where
  "chunk_text rsplit now txt method meta page_map chunk_size chunk_overlap separators =
     (case page_map of
        None \<Rightarrow> Some (Inl (ValueError ''Page map is required for chunking.''))
      | Some pm \<Rightarrow>
          if pm = [] then Some (Inl (ValueError ''Page map is required for chunking.''))
          else
            (let total = int (length pm);
                 r = (if method = ''by_pages'' then Some (Inr (pages_loop pm []))
                      else if method = ''fixed_size''
                      then split_loop
                             (\<lambda>t. map_option Inr (fixed_size_chunks t chunk_size chunk_overlap))
                             pm []
                      else if method \<in> {''by_paragraphs'', ''by_sentences'', ''by_separators''}
                      then split_loop
                             (if method = ''by_paragraphs''
                              then (\<lambda>t. Some (Inr (paragraph_chunks t)))
                              else if method = ''by_sentences''
                              then (\<lambda>t. sentence_chunks rsplit t chunk_size chunk_overlap)
                              else (\<lambda>t. separator_chunks rsplit t chunk_size chunk_overlap
                                           separators))
                             pm []
                      else Some (Inl (ValueError (''Unsupported chunking method: '' @ method))))
             in case r of
                  None \<Rightarrow> None
                | Some (Inl e) \<Rightarrow> Some (Inl e)
                | Some (Inr out) \<Rightarrow>
                    Some (Inr \<lparr>filename = get_or_empty meta ''filename'',
                               total_chunks = int (length out),
                               total_pages = total,
                               loading_method = get_or_empty meta ''loading_method'',
                               chunking_method = method,
                               timestamp = now,
                               chunks = out\<rparr>)))"

section \<open>Properties stated by the specification\<close>

text \<open>The chunk ids of a list of chunks are 1, 2, ... in order.\<close>

definition ids_contiguous :: "Chunk list \<Rightarrow> bool" where
  "ids_contiguous cs = (map (\<lambda>c. chunk_id (metadata c)) cs = [1..int (length cs)])"

text \<open>A document with its timestamp overwritten, to compare two calls made at different times.\<close>

definition without_timestamp :: "DocumentRecord outcome \<Rightarrow> DocumentRecord outcome" where
  "without_timestamp r = map_option (map_sum id (\<lambda>d. d\<lparr>timestamp := []\<rparr>)) r"

section \<open>The loops keep what every appended chunk keeps\<close>

lemma append_chunks_invariant:
  assumes "I out"
    and "\<And>acc c. I acc \<Longrightarrow> c \<in> set cs \<Longrightarrow> I (acc @ [new_chunk acc p c])"
  shows "I (append_chunks p cs out)"
  using assms
proof (induction cs arbitrary: out)
  case Nil
  then show ?case by simp
next
  case (Cons c cs)
  have "I (out @ [new_chunk out p c])"
    using Cons.prems by simp
  then show ?case
    using Cons.IH Cons.prems(2) by simp
qed

lemma pages_loop_invariant:
  assumes "I out"
    and "\<And>acc p. I acc \<Longrightarrow> p \<in> set ps \<Longrightarrow> I (acc @ [new_chunk acc p (page_text p)])"
  shows "I (pages_loop ps out)"
  using assms
proof (induction ps arbitrary: out)
  case Nil
  then show ?case by simp
next
  case (Cons p ps)
  have "I (out @ [new_chunk out p (page_text p)])"
    using Cons.prems by simp
  then show ?case
    using Cons.IH Cons.prems(2) by simp
qed

lemma split_loop_invariant:
  assumes "split_loop f ps out = Some (Inr res)"
    and "I out"
    and "\<And>acc p cs c. I acc \<Longrightarrow> p \<in> set ps \<Longrightarrow> f (page_text p) = Some (Inr cs)
           \<Longrightarrow> c \<in> set cs \<Longrightarrow> I (acc @ [new_chunk acc p c])"
  shows "I res"
  using assms
proof (induction ps arbitrary: out)
  case Nil
  then show ?case by simp
next
  case (Cons p ps)
  from Cons.prems(1) obtain cs where f: "f (page_text p) = Some (Inr cs)"
    and rest: "split_loop f ps (append_chunks p cs out) = Some (Inr res)"
    by (auto split: option.splits sum.splits)
  have "I (append_chunks p cs out)"
  proof (rule append_chunks_invariant)
    show "I out" by (rule Cons.prems(2))
  next
    fix acc c
    assume "I acc" "c \<in> set cs"
    then show "I (acc @ [new_chunk acc p c])"
      using Cons.prems(3) [of acc p cs c] f by simp
  qed
  then show ?case
    using Cons.IH [OF rest] Cons.prems(3) by simp
qed

text \<open>A call that returns a document had a non-empty page map and ran one of the five branches.\<close>

lemma chunk_text_chunks:
  assumes "chunk_text rsplit now txt method meta page_map chunk_size chunk_overlap separators
             = Some (Inr d)"
  shows "\<exists>pm. page_map = Some pm \<and> pm \<noteq> [] \<and> total_chunks d = int (length (chunks d)) \<and>
    (if method = ''by_pages'' then chunks d = pages_loop pm []
     else if method = ''fixed_size''
     then split_loop (\<lambda>t. map_option Inr (fixed_size_chunks t chunk_size chunk_overlap)) pm []
            = Some (Inr (chunks d))
     else if method = ''by_paragraphs''
     then split_loop (\<lambda>t. Some (Inr (paragraph_chunks t))) pm [] = Some (Inr (chunks d))
     else if method = ''by_sentences''
     then split_loop (\<lambda>t. sentence_chunks rsplit t chunk_size chunk_overlap) pm []
            = Some (Inr (chunks d))
     else method = ''by_separators'' \<and>
          split_loop (\<lambda>t. separator_chunks rsplit t chunk_size chunk_overlap separators) pm []
            = Some (Inr (chunks d)))"
  using assms
  by (auto simp: chunk_text_def Let_def split: option.splits sum.splits if_splits)

lemma chunk_text_invariant:
  assumes "chunk_text rsplit now txt method meta page_map chunk_size chunk_overlap separators
             = Some (Inr d)"
    and "I []"
    and "\<And>acc p c. I acc \<Longrightarrow> I (acc @ [new_chunk acc p c])"
  shows "I (chunks d)"
proof -
  from chunk_text_chunks [OF assms(1)] obtain pm where
    br: "if method = ''by_pages'' then chunks d = pages_loop pm []
     else if method = ''fixed_size''
     then split_loop (\<lambda>t. map_option Inr (fixed_size_chunks t chunk_size chunk_overlap)) pm []
            = Some (Inr (chunks d))
     else if method = ''by_paragraphs''
     then split_loop (\<lambda>t. Some (Inr (paragraph_chunks t))) pm [] = Some (Inr (chunks d))
     else if method = ''by_sentences''
     then split_loop (\<lambda>t. sentence_chunks rsplit t chunk_size chunk_overlap) pm []
            = Some (Inr (chunks d))
     else method = ''by_separators'' \<and>
          split_loop (\<lambda>t. separator_chunks rsplit t chunk_size chunk_overlap separators) pm []
            = Some (Inr (chunks d))"
    by blast
  have pages: "I (pages_loop pm [])"
    by (rule pages_loop_invariant) (simp_all add: assms(2,3))
  have split: "I res" if "split_loop f pm [] = Some (Inr res)" for f res
    using that by (rule split_loop_invariant) (simp_all add: assms(2,3))
  show ?thesis
    using br pages split by (auto split: if_splits)
qed

section \<open>Chunk ids\<close>

lemma ids_contiguous_Nil: "ids_contiguous []"
  by (simp add: ids_contiguous_def)

lemma ids_contiguous_step: "ids_contiguous acc \<Longrightarrow> ids_contiguous (acc @ [new_chunk acc p c])"
  by (simp add: ids_contiguous_def new_chunk_def upto_rec2)

text \<open>
  C1. Whenever \<open>chunk_text\<close> returns a document, with any method and any page map, the
  chunk ids of its chunks, in output order, are exactly 1, 2, ..., \<open>total_chunks\<close>, and
  \<open>total_chunks\<close> is the number of chunks.
\<close>

theorem chunk_ids_contiguous:
  assumes "chunk_text rsplit now txt method meta page_map chunk_size chunk_overlap separators
             = Some (Inr d)"
  shows "map (\<lambda>c. chunk_id (metadata c)) (chunks d) = [1..total_chunks d]
         \<and> total_chunks d = int (length (chunks d))"
proof -
  have "ids_contiguous (chunks d)"
    using assms
    by (rule chunk_text_invariant) (simp_all add: ids_contiguous_Nil ids_contiguous_step)
  moreover have "total_chunks d = int (length (chunks d))"
    using chunk_text_chunks [OF assms] by blast
  ultimately show ?thesis
    by (simp add: ids_contiguous_def)
qed

text \<open>
  One page \<open>a b c\<close> split with \<open>fixed_size\<close>, \<open>chunk_size = 12\<close> and no overlap: two chunks,
  numbered 1 and 2.
\<close>

theorem chunk_ids_contiguous_witness:
  "chunk_text (\<lambda>cs co seps t. Some (Inr [t])) ''2026-01-01T00:00:00'' ''ignored'' ''fixed_size''
     Map.empty (Some [\<lparr>page = 7, page_text = ''a b c''\<rparr>]) 12 0 None
   = Some (Inr \<lparr>filename = [], total_chunks = 2, total_pages = 1, loading_method = [],
                chunking_method = ''fixed_size'', timestamp = ''2026-01-01T00:00:00'',
                chunks =
                  [\<lparr>content = ''a b'',
                    metadata = \<lparr>chunk_id = 1, page_number = 7, page_range = ''7'',
                                word_count = 2\<rparr>\<rparr>,
                   \<lparr>content = ''c'',
                    metadata = \<lparr>chunk_id = 2, page_number = 7, page_range = ''7'',
                                word_count = 1\<rparr>\<rparr>]\<rparr>)
   \<and> [1, 2] = [1..(2::int)]"
proof -
  have run:
    "chunk_text (\<lambda>cs co seps t. Some (Inr [t])) ''2026-01-01T00:00:00'' ''ignored''
       ''fixed_size'' Map.empty (Some [\<lparr>page = 7, page_text = ''a b c''\<rparr>]) 12 0 None
     = Some (Inr \<lparr>filename = [], total_chunks = 2, total_pages = 1, loading_method = [],
                  chunking_method = ''fixed_size'', timestamp = ''2026-01-01T00:00:00'',
                  chunks =
                    [\<lparr>content = ''a b'',
                      metadata = \<lparr>chunk_id = 1, page_number = 7, page_range = ''7'',
                                  word_count = 2\<rparr>\<rparr>,
                     \<lparr>content = ''c'',
                      metadata = \<lparr>chunk_id = 2, page_number = 7, page_range = ''7'',
                                  word_count = 1\<rparr>\<rparr>]\<rparr>)"
    by code_simp
  show ?thesis
    using chunk_ids_contiguous [OF run] run by simp
qed

section \<open>Word counts\<close>

text \<open>
  C9. Whenever \<open>chunk_text\<close> returns a document, with any method, the \<open>word_count\<close> of
  each chunk is the number of whitespace-separated tokens of that chunk's own content.
\<close>

theorem word_count_of_content:
  assumes "chunk_text rsplit now txt method meta page_map chunk_size chunk_overlap separators
             = Some (Inr d)"
  shows "\<forall>c \<in> set (chunks d). word_count (metadata c) = int (length (split_ws (content c)))"
  using assms
  by (rule chunk_text_invariant) (simp_all add: new_chunk_def)

text \<open>
  A page split with \<open>by_sentences\<close> by a library splitter that returns the text whole: the
  chunk has three words.
\<close>

theorem word_count_of_content_witness:
  "chunk_text (\<lambda>cs co seps t. Some (Inr [t])) ''2026-01-01T00:00:00'' ''ignored''
     ''by_sentences'' Map.empty (Some [\<lparr>page = 4, page_text = ''  one two.  three ''\<rparr>])
     1000 200 None
   = Some (Inr \<lparr>filename = [], total_chunks = 1, total_pages = 1, loading_method = [],
                chunking_method = ''by_sentences'', timestamp = ''2026-01-01T00:00:00'',
                chunks =
                  [\<lparr>content = ''  one two.  three '',
                    metadata = \<lparr>chunk_id = 1, page_number = 4, page_range = ''4'',
                                word_count = 3\<rparr>\<rparr>]\<rparr>)
   \<and> int (length (split_ws ''  one two.  three '')) = 3"
proof -
  have run:
    "chunk_text (\<lambda>cs co seps t. Some (Inr [t])) ''2026-01-01T00:00:00'' ''ignored''
       ''by_sentences'' Map.empty (Some [\<lparr>page = 4, page_text = ''  one two.  three ''\<rparr>])
       1000 200 None
     = Some (Inr \<lparr>filename = [], total_chunks = 1, total_pages = 1, loading_method = [],
                  chunking_method = ''by_sentences'', timestamp = ''2026-01-01T00:00:00'',
                  chunks =
                    [\<lparr>content = ''  one two.  three '',
                      metadata = \<lparr>chunk_id = 1, page_number = 4, page_range = ''4'',
                                  word_count = 3\<rparr>\<rparr>]\<rparr>)"
    by code_simp
  show ?thesis
    using word_count_of_content [OF run] run by simp
qed

section \<open>The text argument\<close>

text \<open>
  C10. The argument \<open>text\<close> has no influence on the outcome: two calls that differ only in
  \<open>text\<close>, made at any two times, have the same outcome once the timestamp is set aside.
\<close>

theorem text_argument_unused:
  "without_timestamp
     (chunk_text rsplit now1 txt1 method meta page_map chunk_size chunk_overlap separators)
   = without_timestamp
     (chunk_text rsplit now2 txt2 method meta page_map chunk_size chunk_overlap separators)"
  by (simp add: chunk_text_def without_timestamp_def Let_def split: option.splits sum.splits)

section \<open>The page map is required\<close>

text \<open>
  C8. With any method and any other arguments, a call whose page map is \<open>None\<close> or the
  empty list raises the error "Page map is required for chunking." and returns no document;
  a call that returns a document had a non-empty page map.
\<close>

theorem empty_page_map_rejected:
  "chunk_text rsplit now txt method meta None chunk_size chunk_overlap separators
     = Some (Inl (ValueError ''Page map is required for chunking.''))
   \<and> chunk_text rsplit now txt method meta (Some []) chunk_size chunk_overlap separators
     = Some (Inl (ValueError ''Page map is required for chunking.''))
   \<and> (chunk_text rsplit now txt method meta page_map chunk_size chunk_overlap separators
        = Some (Inr d) \<longrightarrow> (\<exists>pm. page_map = Some pm \<and> pm \<noteq> []))"
proof (intro conjI impI)
  assume "chunk_text rsplit now txt method meta page_map chunk_size chunk_overlap separators
            = Some (Inr d)"
  from chunk_text_chunks [OF this] show "\<exists>pm. page_map = Some pm \<and> pm \<noteq> []"
    by blast
qed (simp_all add: chunk_text_def)

text \<open>A call with one page that returns a document.\<close>

theorem empty_page_map_rejected_witness:
  "chunk_text (\<lambda>cs co seps t. Some (Inr [t])) ''2026-01-01T00:00:00'' ''ignored'' ''by_pages''
     (Map.empty(''filename'' \<mapsto> ''doc.pdf'')) (Some [\<lparr>page = 1, page_text = ''a b''\<rparr>])
     1000 200 None
   = Some (Inr \<lparr>filename = ''doc.pdf'', total_chunks = 1, total_pages = 1, loading_method = [],
                chunking_method = ''by_pages'', timestamp = ''2026-01-01T00:00:00'',
                chunks =
                  [\<lparr>content = ''a b'',
                    metadata = \<lparr>chunk_id = 1, page_number = 1, page_range = ''1'',
                                word_count = 2\<rparr>\<rparr>]\<rparr>)
   \<and> (\<exists>pm. Some [\<lparr>page = 1, page_text = ''a b''\<rparr>] = Some pm \<and> pm \<noteq> [])"
proof -
  have run:
    "chunk_text (\<lambda>cs co seps t. Some (Inr [t])) ''2026-01-01T00:00:00'' ''ignored'' ''by_pages''
       (Map.empty(''filename'' \<mapsto> ''doc.pdf'')) (Some [\<lparr>page = 1, page_text = ''a b''\<rparr>])
       1000 200 None
     = Some (Inr \<lparr>filename = ''doc.pdf'', total_chunks = 1, total_pages = 1,
                  loading_method = [], chunking_method = ''by_pages'',
                  timestamp = ''2026-01-01T00:00:00'',
                  chunks =
                    [\<lparr>content = ''a b'',
                      metadata = \<lparr>chunk_id = 1, page_number = 1, page_range = ''1'',
                                  word_count = 2\<rparr>\<rparr>]\<rparr>)"
    by code_simp
  have "\<exists>pm. Some [\<lparr>page = 1, page_text = ''a b''\<rparr>] = Some pm \<and> pm \<noteq> []"
    by (rule empty_page_map_rejected [THEN conjunct2, THEN conjunct2, THEN mp, OF run])
  with run show ?thesis by (rule conjI)
qed

section \<open>by_pages\<close>

lemma pages_loop_fields:
  "map content (pages_loop ps out) = map content out @ map page_text ps
   \<and> map (\<lambda>c. page_number (metadata c)) (pages_loop ps out)
       = map (\<lambda>c. page_number (metadata c)) out @ map page ps
   \<and> map (\<lambda>c. page_range (metadata c)) (pages_loop ps out)
       = map (\<lambda>c. page_range (metadata c)) out @ map (\<lambda>p. str_int (page p)) ps"
  by (induction ps arbitrary: out) (simp_all add: new_chunk_def)

lemma length_pages_loop: "length (pages_loop ps out) = length out + length ps"
  by (induction ps arbitrary: out) simp_all

text \<open>
  C6. With the method \<open>by_pages\<close> and a non-empty page map the call returns a document
  with one chunk per page, in page order: \<open>total_chunks\<close> equals \<open>total_pages\<close>, each chunk's
  content is the page's text unchanged, its \<open>page_number\<close> is the page's number and its
  \<open>page_range\<close> is that number written as a string.
\<close>

theorem by_pages_one_chunk_per_page:
  assumes "pm \<noteq> []"
  shows "\<exists>d. chunk_text rsplit now txt ''by_pages'' meta (Some pm) chunk_size chunk_overlap
                separators = Some (Inr d)
             \<and> total_chunks d = total_pages d
             \<and> total_pages d = int (length pm)
             \<and> length (chunks d) = length pm
             \<and> map content (chunks d) = map page_text pm
             \<and> map (\<lambda>c. page_number (metadata c)) (chunks d) = map page pm
             \<and> map (\<lambda>c. page_range (metadata c)) (chunks d) = map (\<lambda>p. str_int (page p)) pm"
  using assms pages_loop_fields [of pm "[]"] length_pages_loop [of pm "[]"]
  by (simp add: chunk_text_def Let_def)

text \<open>Two pages, numbered 3 and 5, the second one empty.\<close>

theorem by_pages_one_chunk_per_page_witness:
  "[\<lparr>page = 3, page_text = ''first page''\<rparr>, \<lparr>page = 5, page_text = []\<rparr>] \<noteq> []
   \<and> chunk_text (\<lambda>cs co seps t. Some (Inr [t])) ''2026-01-01T00:00:00'' ''ignored'' ''by_pages''
       Map.empty (Some [\<lparr>page = 3, page_text = ''first page''\<rparr>, \<lparr>page = 5, page_text = []\<rparr>])
       1000 200 None
     = Some (Inr \<lparr>filename = [], total_chunks = 2, total_pages = 2, loading_method = [],
                  chunking_method = ''by_pages'', timestamp = ''2026-01-01T00:00:00'',
                  chunks =
                    [\<lparr>content = ''first page'',
                      metadata = \<lparr>chunk_id = 1, page_number = 3, page_range = ''3'',
                                  word_count = 2\<rparr>\<rparr>,
                     \<lparr>content = [],
                      metadata = \<lparr>chunk_id = 2, page_number = 5, page_range = ''5'',
                                  word_count = 0\<rparr>\<rparr>]\<rparr>)"
proof -
  have ne: "[\<lparr>page = 3, page_text = ''first page''\<rparr>, \<lparr>page = 5, page_text = []\<rparr>] \<noteq> []"
    by simp
  have run:
    "chunk_text (\<lambda>cs co seps t. Some (Inr [t])) ''2026-01-01T00:00:00'' ''ignored'' ''by_pages''
       Map.empty (Some [\<lparr>page = 3, page_text = ''first page''\<rparr>, \<lparr>page = 5, page_text = []\<rparr>])
       1000 200 None
     = Some (Inr \<lparr>filename = [], total_chunks = 2, total_pages = 2, loading_method = [],
                  chunking_method = ''by_pages'', timestamp = ''2026-01-01T00:00:00'',
                  chunks =
                    [\<lparr>content = ''first page'',
                      metadata = \<lparr>chunk_id = 1, page_number = 3, page_range = ''3'',
                                  word_count = 2\<rparr>\<rparr>,
                     \<lparr>content = [],
                      metadata = \<lparr>chunk_id = 2, page_number = 5, page_range = ''5'',
                                  word_count = 0\<rparr>\<rparr>]\<rparr>)"
    by code_simp
  from by_pages_one_chunk_per_page [OF ne] run ne show ?thesis by simp
qed

section \<open>fixed_size with a chunk size that is not positive\<close>

lemma split_loop_whole_pages:
  assumes "\<And>p. p \<in> set ps \<Longrightarrow> f (page_text p) = Some (Inr [page_text p])"
  shows "split_loop f ps out = Some (Inr (pages_loop ps out))"
  using assms by (induction ps arbitrary: out) simp_all

text \<open>
  C7. With \<open>chunk_size \<le> 0\<close> the fixed-size splitter returns the page's whole text as its
  single chunk, so \<open>chunk_text\<close> with the method \<open>fixed_size\<close> returns one chunk per page,
  holding that page's text.
\<close>

theorem fixed_size_nonpositive_size:
  assumes "chunk_size \<le> 0"
  shows "fixed_size_chunks t chunk_size chunk_overlap = Some [t]
     \<and> (pm \<noteq> [] \<longrightarrow>
          (\<exists>d. chunk_text rsplit now txt ''fixed_size'' meta (Some pm) chunk_size chunk_overlap
                  separators = Some (Inr d)
              \<and> map content (chunks d) = map page_text pm))"
proof -
  have one: "fixed_size_chunks u chunk_size chunk_overlap = Some [u]" for u
    using assms by (simp add: fixed_size_chunks_def)
  have "split_loop (\<lambda>t. map_option Inr (fixed_size_chunks t chunk_size chunk_overlap)) pm []
          = Some (Inr (pages_loop pm []))"
    by (rule split_loop_whole_pages) (simp add: one)
  then show ?thesis
    using one pages_loop_fields [of pm "[]"]
    by (simp add: chunk_text_def Let_def)
qed

text \<open>The page text \<open>a b c\<close> with \<open>chunk_size = 0\<close>.\<close>

theorem fixed_size_nonpositive_size_witness:
  "(0::int) \<le> 0 \<and> fixed_size_chunks ''a b c'' 0 200 = Some [''a b c'']
   \<and> [\<lparr>page = 1, page_text = ''a b c''\<rparr>] \<noteq> []
   \<and> chunk_text (\<lambda>cs co seps t. Some (Inr [t])) ''2026-01-01T00:00:00'' ''ignored''
       ''fixed_size'' Map.empty (Some [\<lparr>page = 1, page_text = ''a b c''\<rparr>]) 0 200 None
     = Some (Inr \<lparr>filename = [], total_chunks = 1, total_pages = 1, loading_method = [],
                  chunking_method = ''fixed_size'', timestamp = ''2026-01-01T00:00:00'',
                  chunks =
                    [\<lparr>content = ''a b c'',
                      metadata = \<lparr>chunk_id = 1, page_number = 1, page_range = ''1'',
                                  word_count = 3\<rparr>\<rparr>]\<rparr>)"
proof -
  have z: "(0::int) \<le> 0" by simp
  have run:
    "chunk_text (\<lambda>cs co seps t. Some (Inr [t])) ''2026-01-01T00:00:00'' ''ignored''
       ''fixed_size'' Map.empty (Some [\<lparr>page = 1, page_text = ''a b c''\<rparr>]) 0 200 None
     = Some (Inr \<lparr>filename = [], total_chunks = 1, total_pages = 1, loading_method = [],
                  chunking_method = ''fixed_size'', timestamp = ''2026-01-01T00:00:00'',
                  chunks =
                    [\<lparr>content = ''a b c'',
                      metadata = \<lparr>chunk_id = 1, page_number = 1, page_range = ''1'',
                                  word_count = 3\<rparr>\<rparr>]\<rparr>)"
    by code_simp
  from fixed_size_nonpositive_size
         [OF z, where t = "''a b c''" and chunk_overlap = 200
            and pm = "[\<lparr>page = 1, page_text = ''a b c''\<rparr>]"]
       z run
  show ?thesis by simp
qed

section \<open>Whitespace, words and joined words\<close>

lemma strip_eq_Nil_iff: "strip s = [] \<longleftrightarrow> (\<forall>c \<in> set s. is_space c)"
proof -
  have inner: "(\<forall>x \<in> set (dropWhile is_space s). is_space x) \<longleftrightarrow> dropWhile is_space s = []"
  proof
    assume all: "\<forall>x \<in> set (dropWhile is_space s). is_space x"
    show "dropWhile is_space s = []"
    proof (rule ccontr)
      assume ne: "dropWhile is_space s \<noteq> []"
      then have "\<not> is_space (hd (dropWhile is_space s))" by (rule hd_dropWhile)
      moreover have "hd (dropWhile is_space s) \<in> set (dropWhile is_space s)"
        using ne by simp
      ultimately show False using all by blast
    qed
  next
    assume "dropWhile is_space s = []"
    then show "\<forall>x \<in> set (dropWhile is_space s). is_space x"
      by (metis empty_iff empty_set)
  qed
  have "strip s = [] \<longleftrightarrow> (\<forall>x \<in> set (dropWhile is_space s). is_space x)"
    by (simp add: strip_def dropWhile_eq_Nil_conv)
  also have "\<dots> \<longleftrightarrow> dropWhile is_space s = []"
    by (rule inner)
  also have "\<dots> \<longleftrightarrow> (\<forall>c \<in> set s. is_space c)"
    by (simp add: dropWhile_eq_Nil_conv)
  finally show ?thesis .
qed



lemma split_ws_from_words:
  assumes "\<forall>c \<in> set cur. \<not> is_space c"
  shows "\<forall>w \<in> set (split_ws_from cur s). w \<noteq> [] \<and> (\<forall>c \<in> set w. \<not> is_space c)"
  using assms
proof (induction s arbitrary: cur)
  case Nil
  then show ?case by simp
next
  case (Cons a s)
  show ?case
  proof (cases "is_space a")
    case True
    have "\<forall>w \<in> set (split_ws_from [] s). w \<noteq> [] \<and> (\<forall>c \<in> set w. \<not> is_space c)"
      by (rule Cons.IH) simp
    then show ?thesis
      using True Cons.prems by simp
  next
    case False
    have "\<forall>w \<in> set (split_ws_from (cur @ [a]) s). w \<noteq> [] \<and> (\<forall>c \<in> set w. \<not> is_space c)"
      by (rule Cons.IH) (use False Cons.prems in simp)
    then show ?thesis
      using False by simp
  qed
qed

lemma split_ws_words:
  "w \<in> set (split_ws s) \<Longrightarrow> w \<noteq> [] \<and> (\<forall>c \<in> set w. \<not> is_space c)"
  using split_ws_from_words [of "[]" s] by (simp add: split_ws_def)

lemma set_join_sp: "w \<in> set ws \<Longrightarrow> set w \<subseteq> set (join_sp ws)"
  by (induction ws rule: join_sp.induct) auto

lemma join_sp_not_blank:
  assumes "ws \<noteq> []" and "\<forall>w \<in> set ws. w \<noteq> [] \<and> (\<forall>c \<in> set w. \<not> is_space c)"
  shows "strip (join_sp ws) \<noteq> []"
proof -
  from assms(1) obtain w where w: "w \<in> set ws"
    by (cases ws) auto
  with assms(2) have "w \<noteq> []" "\<forall>c \<in> set w. \<not> is_space c" by auto
  then obtain c where "c \<in> set w" "\<not> is_space c"
    by (cases w) auto
  note w = w this
  then have "c \<in> set (join_sp ws)" using set_join_sp by blast
  with \<open>\<not> is_space c\<close> show ?thesis by (auto simp: strip_eq_Nil_iff)
qed

lemma slice_words_not_blank:
  assumes "slice (split_ws t) i j \<noteq> []"
  shows "strip (join_sp (slice (split_ws t) i j)) \<noteq> []"
proof (rule join_sp_not_blank [OF assms])
  have "set (slice (split_ws t) i j) \<subseteq> set (split_ws t)"
    unfolding slice_def by (meson set_take_subset set_drop_subset subset_trans)
  then show "\<forall>w \<in> set (slice (split_ws t) i j). w \<noteq> [] \<and> (\<forall>c \<in> set w. \<not> is_space c)"
    using split_ws_words by blast
qed

section \<open>The sliding window of fixed_size\<close>

text \<open>
  When the overlap in words is at least the window size and the page has more words than
  one window, the next start is not beyond the current one and the loop never ends.
\<close>

lemma fixed_size_loop_stuck:
  assumes "fixed_size_loop words wpc ow start out = Some res"
  shows "\<not> (0 \<le> start \<and> start + wpc < int (length words) \<and> 0 < wpc \<and> wpc \<le> ow)"
proof (rule fixed_size_loop.raw_induct
    [where P = "\<lambda>ws n k s acc r. \<not> (0 \<le> s \<and> s + n < int (length ws) \<and> 0 < n \<and> n \<le> k)",
      OF _ assms])
  fix f ws n k s acc r
  assume IH: "\<And>ws' n' k' s' acc' r'. f ws' n' k' s' acc' = Some r'
                \<Longrightarrow> \<not> (0 \<le> s' \<and> s' + n' < int (length ws') \<and> 0 < n' \<and> n' \<le> k')"
    and body: "(if s < int (length ws)
      then let end = min (int (length ws)) (s + n);
               chunk = join_sp (slice ws s end);
               out' = if strip chunk \<noteq> [] then acc @ [chunk] else acc
           in if int (length ws) \<le> end then Some out'
              else f ws n k (max 0 (end - k)) out'
      else Some acc) = Some r"
  show "\<not> (0 \<le> s \<and> s + n < int (length ws) \<and> 0 < n \<and> n \<le> k)"
  proof
    assume c: "0 \<le> s \<and> s + n < int (length ws) \<and> 0 < n \<and> n \<le> k"
    let ?chunk = "join_sp (slice ws s (s + n))"
    let ?out = "if strip ?chunk \<noteq> [] then acc @ [?chunk] else acc"
    have e: "min (int (length ws)) (s + n) = s + n" using c by simp
    have lt: "s < int (length ws)" using c by simp
    have "f ws n k (max 0 (s + n - k)) ?out = Some r"
      using body c unfolding e Let_def if_P [OF lt] by simp
    from IH [OF this] show False using c by auto
  qed
qed

lemma fixed_size_loop_diverges:
  assumes "0 \<le> start" "start + wpc < int (length words)" "0 < wpc" "wpc \<le> ow"
  shows "fixed_size_loop words wpc ow start out = None"
proof (cases "fixed_size_loop words wpc ow start out")
  case None
  then show ?thesis .
next
  case (Some res)
  from fixed_size_loop_stuck [OF this] assms show ?thesis by simp
qed

text \<open>When the overlap in words is below the window size, each step moves the start forward.\<close>

lemma fixed_size_loop_returns:
  assumes "ow < wpc"
  shows "\<exists>res. fixed_size_loop words wpc ow start out = Some res"
proof (induction "nat (int (length words) - start)" arbitrary: start out rule: less_induct)
  case less
  let ?end = "min (int (length words)) (start + wpc)"
  let ?chunk = "join_sp (slice words start ?end)"
  let ?out = "if strip ?chunk \<noteq> [] then out @ [?chunk] else out"
  show ?case
  proof (cases "start < int (length words) \<and> start + wpc < int (length words)")
    case False
    then show ?thesis
      by (subst fixed_size_loop.simps) (auto simp: Let_def)
  next
    case True
    then have e: "?end = start + wpc" by simp
    have step: "fixed_size_loop words wpc ow start out
            = fixed_size_loop words wpc ow (max 0 (?end - ow)) ?out"
      using True unfolding e by (subst fixed_size_loop.simps) (simp add: Let_def)
    have "nat (int (length words) - max 0 (?end - ow)) < nat (int (length words) - start)"
      using True assms unfolding e by auto
    from less [OF this] show ?thesis
      unfolding step .
  qed
qed

lemma overlap_words_nonneg: "0 \<le> overlap_words chunk_overlap"
  by (simp add: overlap_words_def max_def)

lemma words_per_chunk_pos: "0 < words_per_chunk chunk_size"
  by (simp add: words_per_chunk_def)

text \<open>The calls of the fixed-size splitter that do not return.\<close>

lemma fixed_size_chunks_diverges_iff:
  "fixed_size_chunks t chunk_size chunk_overlap = None \<longleftrightarrow>
     0 < chunk_size \<and> words_per_chunk chunk_size \<le> overlap_words chunk_overlap
       \<and> words_per_chunk chunk_size < int (length (split_ws t))"
proof (cases "0 < chunk_size")
  case False
  then show ?thesis by (simp add: fixed_size_chunks_def)
next
  case pos: True
  let ?ws = "split_ws t"
  let ?n = "words_per_chunk chunk_size"
  let ?k = "overlap_words chunk_overlap"
  have unfold: "fixed_size_chunks t chunk_size chunk_overlap = fixed_size_loop ?ws ?n ?k 0 []"
    using pos by (simp add: fixed_size_chunks_def)
  show ?thesis
  proof (cases "?k < ?n")
    case True
    with fixed_size_loop_returns [OF True, of ?ws 0 "[]"] show ?thesis
      unfolding unfold by auto
  next
    case ge: False
    show ?thesis
    proof (cases "?n < int (length ?ws)")
      case True
      have "fixed_size_loop ?ws ?n ?k 0 [] = None"
        by (rule fixed_size_loop_diverges) (use True ge words_per_chunk_pos in auto)
      then show ?thesis
        unfolding unfold using pos True ge by simp
    next
      case False
      then have "fixed_size_loop ?ws ?n ?k 0 [] \<noteq> None"
        by (subst fixed_size_loop.simps) (auto simp: Let_def)
      then show ?thesis
        unfolding unfold using False by simp
    qed
  qed
qed

text \<open>
  C3. The claim is that the sliding-window loop ends for every page text, \<open>chunk_size\<close> and
  \<open>chunk_overlap\<close>, also when \<open>chunk_overlap \<ge> chunk_size\<close>. On the page text \<open>a b\<close> with
  \<open>chunk_size = 6\<close> and \<open>chunk_overlap = 6\<close> the window holds one word and the overlap is one
  word: the start stays at 0, the loop never ends, and neither the splitter nor \<open>chunk_text\<close>
  returns.
\<close>

theorem fixed_size_overlap_not_below_size_diverges:
  "fixed_size_chunks ''a b'' 6 6 = None
   \<and> chunk_text rsplit now txt ''fixed_size'' meta (Some [\<lparr>page = 1, page_text = ''a b''\<rparr>]) 6 6 separators = None"
proof -
  have ws: "split_ws ''a b'' = [''a'', ''b'']"
    by code_simp
  have "fixed_size_loop [''a'', ''b''] 1 1 0 [] = None"
    by (rule fixed_size_loop_diverges) simp_all
  then have d: "fixed_size_chunks ''a b'' 6 6 = None"
    by (simp add: fixed_size_chunks_def ws words_per_chunk_def overlap_words_def)
  then show ?thesis
    by (simp add: chunk_text_def)
qed

text \<open>
  C4. For \<open>chunk_size > 0\<close> the splitter runs the window loop over the words of the text with
  \<open>max 1 (chunk_size div 6)\<close> words per chunk and an overlap of \<open>chunk_overlap div 6\<close> words
  (0 when \<open>chunk_overlap \<le> 0\<close>). A text of 12 words with \<open>chunk_size = 30\<close> and
  \<open>chunk_overlap = 6\<close> gives exactly 3 chunks: the words at positions 0 to 4, 4 to 8 and
  8 to 11, joined by single spaces; the last chunk has 4 words.
\<close>

theorem fixed_size_word_budget:
  assumes "0 < chunk_size"
  shows "fixed_size_chunks t chunk_size chunk_overlap
           = fixed_size_loop (split_ws t) (max 1 (chunk_size div 6))
               (if chunk_overlap \<le> 0 then 0 else max 0 (chunk_overlap div 6)) 0 []
         \<and> (length (split_ws u) = 12 \<longrightarrow>
              fixed_size_chunks u 30 6
                = Some [join_sp (slice (split_ws u) 0 5), join_sp (slice (split_ws u) 4 9),
                        join_sp (slice (split_ws u) 8 12)]
              \<and> length (slice (split_ws u) 0 5) = 5
              \<and> length (slice (split_ws u) 4 9) = 5
              \<and> length (slice (split_ws u) 8 12) = 4)"
proof (intro conjI impI)
  show "fixed_size_chunks t chunk_size chunk_overlap
           = fixed_size_loop (split_ws t) (max 1 (chunk_size div 6))
               (if chunk_overlap \<le> 0 then 0 else max 0 (chunk_overlap div 6)) 0 []"
    using assms by (simp add: fixed_size_chunks_def words_per_chunk_def overlap_words_def)
next
  assume len: "length (split_ws u) = 12"
  let ?ws = "split_ws u"
  show l1: "length (slice ?ws 0 5) = 5" and l2: "length (slice ?ws 4 9) = 5"
    and l3: "length (slice ?ws 8 12) = 4"
    using len by (simp_all add: slice_def)
  have n1: "strip (join_sp (slice ?ws 0 5)) \<noteq> []"
    by (rule slice_words_not_blank) (use l1 in auto)
  have n2: "strip (join_sp (slice ?ws 4 9)) \<noteq> []"
    by (rule slice_words_not_blank) (use l2 in auto)
  have n3: "strip (join_sp (slice ?ws 8 12)) \<noteq> []"
    by (rule slice_words_not_blank) (use l3 in auto)
  have s3: "fixed_size_loop ?ws 5 1 8 acc = Some (acc @ [join_sp (slice ?ws 8 12)])" for acc
    by (subst fixed_size_loop.simps) (simp add: len n3)
  have s2: "fixed_size_loop ?ws 5 1 4 acc = fixed_size_loop ?ws 5 1 8 (acc @ [join_sp (slice ?ws 4 9)])"
    for acc
    by (subst fixed_size_loop.simps) (simp add: len n2)
  have s1: "fixed_size_loop ?ws 5 1 0 [] = fixed_size_loop ?ws 5 1 4 [join_sp (slice ?ws 0 5)]"
    by (subst fixed_size_loop.simps) (simp add: len n1)
  show "fixed_size_chunks u 30 6
                = Some [join_sp (slice ?ws 0 5), join_sp (slice ?ws 4 9), join_sp (slice ?ws 8 12)]"
    by (simp add: fixed_size_chunks_def words_per_chunk_def overlap_words_def s1 s2 s3)
qed

text \<open>Twelve words \<open>w1\<close> to \<open>w12\<close>.\<close>

theorem fixed_size_word_budget_witness:
  "(0::int) < 30 \<and> length (split_ws ''w1 w2 w3 w4 w5 w6 w7 w8 w9 w10 w11 w12'') = 12
   \<and> fixed_size_chunks ''w1 w2 w3 w4 w5 w6 w7 w8 w9 w10 w11 w12'' 30 6
       = Some [''w1 w2 w3 w4 w5'', ''w5 w6 w7 w8 w9'', ''w9 w10 w11 w12'']"
proof -
  have ws: "split_ws ''w1 w2 w3 w4 w5 w6 w7 w8 w9 w10 w11 w12''
              = [''w1'', ''w2'', ''w3'', ''w4'', ''w5'', ''w6'', ''w7'', ''w8'', ''w9'', ''w10'',
                 ''w11'', ''w12'']"
    by code_simp
  have len: "length (split_ws ''w1 w2 w3 w4 w5 w6 w7 w8 w9 w10 w11 w12'') = 12"
    by (simp add: ws)
  have pos: "(0::int) < 30" by simp
  from fixed_size_word_budget [OF pos, THEN conjunct2, THEN mp, OF len, THEN conjunct1]
  have "fixed_size_chunks ''w1 w2 w3 w4 w5 w6 w7 w8 w9 w10 w11 w12'' 30 6
       = Some [''w1 w2 w3 w4 w5'', ''w5 w6 w7 w8 w9'', ''w9 w10 w11 w12'']"
    by (simp add: ws slice_def)
  with len show ?thesis by simp
qed

section \<open>Blank chunks\<close>




text \<open>
  The branch for sentences and separators appends the pieces returned by the library as they
  are: the contents of the chunks are exactly these pieces.
\<close>

lemma append_chunks_contents: "map content (append_chunks p cs out) = map content out @ cs"
  by (induction cs arbitrary: out) (simp_all add: new_chunk_def)

lemma split_loop_content_set:
  assumes "split_loop f ps out = Some (Inr res)"
  shows "content ` set res
           = content ` set out \<union> {c. \<exists>p \<in> set ps. \<exists>r. f (page_text p) = Some (Inr r) \<and> c \<in> set r}"
  using assms
proof (induction ps arbitrary: out)
  case Nil
  then show ?case by simp
next
  case (Cons p ps)
  from Cons.prems obtain cs where f: "f (page_text p) = Some (Inr cs)"
    and rest: "split_loop f ps (append_chunks p cs out) = Some (Inr res)"
    by (auto split: option.splits sum.splits)
  have "content ` set (append_chunks p cs out) = content ` set out \<union> set cs"
    using append_chunks_contents [of p cs out] by (metis set_append set_map)
  with Cons.IH [OF rest] f show ?case
    by auto
qed

lemma library_pieces_unfiltered:
  assumes run: "chunk_text rsplit now txt method meta (Some pm) chunk_size chunk_overlap separators
             = Some (Inr d)"
  shows "(method = ''by_sentences'' \<longrightarrow>
            content ` set (chunks d)
              = {c. \<exists>p \<in> set pm. \<exists>r. sentence_chunks rsplit (page_text p) chunk_size chunk_overlap
                                          = Some (Inr r) \<and> c \<in> set r})
       \<and> (method = ''by_separators'' \<longrightarrow>
            content ` set (chunks d)
              = {c. \<exists>p \<in> set pm. \<exists>r. separator_chunks rsplit (page_text p) chunk_size chunk_overlap
                                          separators = Some (Inr r) \<and> c \<in> set r})"
proof -
  from chunk_text_chunks [OF run] have
    br: "if method = ''by_pages'' then chunks d = pages_loop pm []
     else if method = ''fixed_size''
     then split_loop (\<lambda>t. map_option Inr (fixed_size_chunks t chunk_size chunk_overlap)) pm []
            = Some (Inr (chunks d))
     else if method = ''by_paragraphs''
     then split_loop (\<lambda>t. Some (Inr (paragraph_chunks t))) pm [] = Some (Inr (chunks d))
     else if method = ''by_sentences''
     then split_loop (\<lambda>t. sentence_chunks rsplit t chunk_size chunk_overlap) pm []
            = Some (Inr (chunks d))
     else method = ''by_separators'' \<and>
          split_loop (\<lambda>t. separator_chunks rsplit t chunk_size chunk_overlap separators) pm []
            = Some (Inr (chunks d))"
    by simp
  show ?thesis
  proof (intro conjI impI)
    assume "method = ''by_sentences''"
    then have "split_loop (\<lambda>t. sentence_chunks rsplit t chunk_size chunk_overlap) pm []
            = Some (Inr (chunks d))"
      using br by simp
    from split_loop_content_set [OF this] show "content ` set (chunks d)
              = {c. \<exists>p \<in> set pm. \<exists>r. sentence_chunks rsplit (page_text p) chunk_size chunk_overlap
                                          = Some (Inr r) \<and> c \<in> set r}"
      by simp
  next
    assume "method = ''by_separators''"
    then have "split_loop (\<lambda>t. separator_chunks rsplit t chunk_size chunk_overlap separators) pm []
            = Some (Inr (chunks d))"
      using br by simp
    from split_loop_content_set [OF this] show "content ` set (chunks d)
              = {c. \<exists>p \<in> set pm. \<exists>r. separator_chunks rsplit (page_text p) chunk_size chunk_overlap
                                          separators = Some (Inr r) \<and> c \<in> set r}"
      by simp
  qed
qed




end
